theory Spec2Isabelle
  imports Complex_Main "HOL-Library.Multiset"
begin

chapter \<open>The model\<close>

section \<open>Common modelling conventions\<close>

text \<open>
  Python floats are modelled as HOL reals, Python strings as \<open>string\<close>, and a dictionary
  literal as an association list read with \<open>dict_get\<close>, which is Python's
  \<open>d.get(key, default)\<close>. Rounding is not modelled, except in \<open>haversine_distance\<close>, where
  it decides whether \<open>math.sqrt\<close> raises.
\<close>

definition dict_get :: "('k \<times> 'v) list \<Rightarrow> 'k \<Rightarrow> 'v \<Rightarrow> 'v" where
  "dict_get d k dflt = (case map_of d k of None \<Rightarrow> dflt | Some v \<Rightarrow> v)"

text \<open>\<open>str.lower()\<close> on ASCII text: the letters A to Z move to a to z.\<close>

definition lower_char :: "char \<Rightarrow> char" where
  "lower_char c =
     (case map_of (zip ''ABCDEFGHIJKLMNOPQRSTUVWXYZ'' ''abcdefghijklmnopqrstuvwxyz'') c of
        None \<Rightarrow> c
      | Some l \<Rightarrow> l)"

definition lower :: "string \<Rightarrow> string" where
  "lower s = map lower_char s"

section \<open>FuelCalculator (ml/route_optimization/fuel_calculator.py)\<close>

text \<open>The tables set up by \<open>FuelCalculator.__init__\<close>.\<close>

definition base_consumption :: "(string \<times> real) list" where
  "base_consumption = [(''sedan'', 7.5), (''suv'', 10.0), (''truck'', 25.0), (''van'', 12.0)]"

definition factors_load :: real where
  "factors_load = 0.001"

definition factors_speed_optimal :: real where
  "factors_speed_optimal = 60"

definition factors_speed_penalty :: real where
  "factors_speed_penalty = 0.1"

definition factors_elevation :: real where
  "factors_elevation = 0.1"

definition factors_road_condition :: "(string \<times> real) list" where
  "factors_road_condition =
     [(''excellent'', 0.0), (''good'', 0.1), (''average'', 0.2), (''poor'', 0.4),
      (''terrible'', 0.7)]"

text \<open>The dictionary returned by \<open>calculate_fuel_consumption\<close>.\<close>

record fuel_info =
  base_consumption_l_per_100km :: real
  adjusted_consumption_l_per_100km :: real
  total_fuel_liters :: real
  load_f :: real
  speed_f :: real
  elevation_f :: real
  road_condition_f :: real
  emissions_kg_co2 :: real

definition calculate_fuel_consumption ::
  "real \<Rightarrow> string \<Rightarrow> real \<Rightarrow> real \<Rightarrow> real \<Rightarrow> string \<Rightarrow> fuel_info" where
  "calculate_fuel_consumption distance_km vehicle_type load_kg avg_speed_kmh
       elevation_gain_m road_condition =
     (let base = dict_get base_consumption (lower vehicle_type) 10.0;
          load_factor = 1 + (factors_load * load_kg);
          speed_diff = max 0 (avg_speed_kmh - factors_speed_optimal);
          speed_factor = 1 + (speed_diff * factors_speed_penalty / 100);
          elevation_factor = 1 + ((elevation_gain_m / 10) * factors_elevation / 100);
          road_factor = 1 + dict_get factors_road_condition (lower road_condition) 0.2;
          adjusted_consumption =
            base * load_factor * speed_factor * elevation_factor * road_factor;
          total_fuel = (adjusted_consumption / 100) * distance_km
      in \<lparr> base_consumption_l_per_100km = base,
           adjusted_consumption_l_per_100km = adjusted_consumption,
           total_fuel_liters = total_fuel,
           load_f = load_factor,
           speed_f = speed_factor,
           elevation_f = elevation_factor,
           road_condition_f = road_factor,
           emissions_kg_co2 = total_fuel * 2.31 \<rparr>)"

text \<open>
  The fuel formula in the words of the specification: a base rate per vehicle type (an
  unknown type takes the default rate), and the four multiplicative factors.
\<close>

definition spec_base_rate :: "string \<Rightarrow> real" where
  "spec_base_rate vt =
     (if vt = ''sedan'' then 7.5 else if vt = ''suv'' then 10.0
      else if vt = ''truck'' then 25.0 else if vt = ''van'' then 12.0 else 10.0)"

definition spec_road_factor :: "string \<Rightarrow> real" where
  "spec_road_factor rc =
     (if rc = ''excellent'' then 1.0 else if rc = ''good'' then 1.1
      else if rc = ''average'' then 1.2 else if rc = ''poor'' then 1.4
      else if rc = ''terrible'' then 1.7 else 1.2)"

definition spec_elevation_factor :: "real \<Rightarrow> real" where
  "spec_elevation_factor gain = 1 + gain * 0.0001"

definition spec_fuel :: "real \<Rightarrow> string \<Rightarrow> real \<Rightarrow> real \<Rightarrow> real \<Rightarrow> string \<Rightarrow> real" where
  "spec_fuel distance_km vt load_kg avg_speed gain rc =
     spec_base_rate vt * (1 + 0.001 * load_kg) * (1 + max 0 (avg_speed - 60) * 0.001)
       * spec_elevation_factor gain * spec_road_factor rc / 100 * distance_km"

section \<open>RouteOptimizationAgent cost factors (backend/ai_agents/route_optimization_agent.py)\<close>

type_synonym point = "real \<times> real"

text \<open>
  The exceptions of Python that the modelled code can raise. A function that can raise
  returns \<open>pyerr + 'a\<close>, with \<open>Inl\<close> for the exception. \<open>RuntimeError\<close> stands for whatever
  exception a detection collaborator raises.
\<close>

datatype pyerr =
  NameError | ZeroDivisionError | ValueError | IndexError | TypeError | RuntimeError
  | QueueFull | QueueEmpty

subsection \<open>Traffic factor\<close>

text \<open>
  The traffic dictionary and its incidents. A key that may be absent is an \<open>option\<close>
  field; the code reads each of them with \<open>.get(key, default)\<close>.
\<close>

record incident =
  inc_location :: "point option"
  inc_severity :: "string option"

record traffic_conditions =
  tc_density :: "real option"
  tc_incidents :: "incident list option"

definition distance_to_route :: "point \<Rightarrow> point \<Rightarrow> point \<Rightarrow> real" where
  "distance_to_route start end' pt =
     (let (x1, y1) = start; (x2, y2) = end'; (x0, y0) = pt;
          dx = x2 - x1;
          dy = y2 - y1
      in if dx = 0 \<and> dy = 0 then sqrt ((x0 - x1)\<^sup>2 + (y0 - y1)\<^sup>2)
         else
           let t = ((x0 - x1) * dx + (y0 - y1) * dy) / (dx * dx + dy * dy);
               t = max 0 (min 1 t);
               closest_x = x1 + t * dx;
               closest_y = y1 + t * dy
           in sqrt ((x0 - closest_x)\<^sup>2 + (y0 - closest_y)\<^sup>2))"

text \<open>The body of the loop over the incidents, and the loop.\<close>

definition incident_step :: "point \<Rightarrow> point \<Rightarrow> incident \<Rightarrow> real \<Rightarrow> real" where
  "incident_step start end' inc base_factor =
     (let incident_loc = (case inc_location inc of None \<Rightarrow> (0, 0) | Some l \<Rightarrow> l);
          dist_to_route = distance_to_route start end' incident_loc
      in if dist_to_route < 0.01 then
           let severity = (case inc_severity inc of None \<Rightarrow> ''medium'' | Some s \<Rightarrow> s)
           in if severity = ''low'' then base_factor * 1.2
              else if severity = ''medium'' then base_factor * 1.5
              else base_factor * 2.0
         else base_factor)"

fun incident_loop :: "point \<Rightarrow> point \<Rightarrow> incident list \<Rightarrow> real \<Rightarrow> real" where
  "incident_loop start end' [] base_factor = base_factor"
| "incident_loop start end' (inc # rest) base_factor =
     incident_loop start end' rest (incident_step start end' inc base_factor)"

definition get_traffic_factor :: "point \<Rightarrow> point \<Rightarrow> traffic_conditions \<Rightarrow> real" where
  "get_traffic_factor start end' tc =
     (let base_factor = 1.0;
          density = (case tc_density tc of None \<Rightarrow> 0.5 | Some d \<Rightarrow> d);
          base_factor = base_factor + density * 1.5;
          base_factor =
            incident_loop start end'
              (case tc_incidents tc of None \<Rightarrow> [] | Some l \<Rightarrow> l) base_factor
      in max 1.0 base_factor)"

text \<open>
  The traffic factor in the words of the specification: an incident counts when it lies
  within the corridor of the leg, and it multiplies the factor by the value of its severity.
\<close>

definition within_corridor :: "point \<Rightarrow> point \<Rightarrow> incident \<Rightarrow> bool" where
  "within_corridor start end' inc =
     (distance_to_route start end'
        (case inc_location inc of None \<Rightarrow> (0, 0) | Some l \<Rightarrow> l) < 0.01)"

definition severity_multiplier :: "incident \<Rightarrow> real" where
  "severity_multiplier inc =
     (let severity = (case inc_severity inc of None \<Rightarrow> ''medium'' | Some s \<Rightarrow> s)
      in if severity = ''low'' then 1.2 else if severity = ''medium'' then 1.5 else 2.0)"

definition spec_traffic_factor :: "point \<Rightarrow> point \<Rightarrow> real \<Rightarrow> incident list \<Rightarrow> real" where
  "spec_traffic_factor start end' density incs =
     max 1.0 ((1.0 + density * 1.5)
       * prod_list (map severity_multiplier (filter (within_corridor start end') incs)))"

definition no_traffic_data :: traffic_conditions where
  "no_traffic_data = \<lparr> tc_density = None, tc_incidents = None \<rparr>"

subsection \<open>Weather factor\<close>

text \<open>The fields of the weather record that \<open>_get_weather_factor\<close> reads.\<close>

record weather_conditions =
  wc_condition :: "string option"
  wc_temperature :: "real option"
  wc_precipitation :: "real option"
  wc_wind_speed :: "real option"
  wc_visibility :: "real option"

definition condition_factors :: "(string \<times> real) list" where
  "condition_factors =
     [(''clear'', 1.0), (''clouds'', 1.0), (''partly-cloudy'', 1.0), (''cloudy'', 1.0),
      (''rain'', 1.3), (''light rain'', 1.2), (''moderate rain'', 1.4), (''heavy rain'', 1.7),
      (''showers'', 1.5), (''thunderstorm'', 2.0), (''snow'', 2.0), (''light snow'', 1.5),
      (''heavy snow'', 2.5), (''fog'', 1.5), (''mist'', 1.3), (''haze'', 1.2), (''dust'', 1.4),
      (''sand'', 1.6), (''ash'', 1.8), (''squall'', 2.0), (''tornado'', 3.0)]"

definition get_weather_factor :: "point \<Rightarrow> weather_conditions \<Rightarrow> real" where
  "get_weather_factor location wc =
     (let condition = lower (case wc_condition wc of None \<Rightarrow> ''clear'' | Some c \<Rightarrow> c);
          factor = dict_get condition_factors condition 1.0;
          precipitation = (case wc_precipitation wc of None \<Rightarrow> 0 | Some p \<Rightarrow> p);
          factor = (if precipitation > 10 then max factor 1.7
                    else if precipitation > 5 then max factor 1.5
                    else if precipitation > 2 then max factor 1.2
                    else factor);
          wind_speed = (case wc_wind_speed wc of None \<Rightarrow> 0 | Some w \<Rightarrow> w);
          factor = (if wind_speed > 50 then max factor 2.0
                    else if wind_speed > 30 then max factor 1.5
                    else if wind_speed > 20 then max factor 1.2
                    else factor);
          visibility = (case wc_visibility wc of None \<Rightarrow> 10 | Some v \<Rightarrow> v);
          factor = (if visibility < 0.1 then max factor 2.0
                    else if visibility < 0.5 then max factor 1.7
                    else if visibility < 1 then max factor 1.3
                    else factor);
          temperature = (case wc_temperature wc of None \<Rightarrow> 20 | Some t \<Rightarrow> t);
          factor = (if temperature > 35 \<or> temperature < -5 then max factor 1.3 else factor)
      in max 1.0 factor)"

text \<open>
  The weather factor in the words of the specification: the base value of the condition
  and, for each of precipitation, wind speed, visibility and temperature, the value of the
  threshold that applies, if one does; the factor is the greatest of them.
\<close>

definition condition_base :: "weather_conditions \<Rightarrow> real" where
  "condition_base wc =
     dict_get condition_factors
       (lower (case wc_condition wc of None \<Rightarrow> ''clear'' | Some c \<Rightarrow> c)) 1.0"

definition precipitation_threshold :: "real \<Rightarrow> real option" where
  "precipitation_threshold p =
     (if p > 10 then Some 1.7 else if p > 5 then Some 1.5 else if p > 2 then Some 1.2
      else None)"

definition wind_threshold :: "real \<Rightarrow> real option" where
  "wind_threshold w =
     (if w > 50 then Some 2.0 else if w > 30 then Some 1.5 else if w > 20 then Some 1.2
      else None)"

definition visibility_threshold :: "real \<Rightarrow> real option" where
  "visibility_threshold v =
     (if v < 0.1 then Some 2.0 else if v < 0.5 then Some 1.7 else if v < 1 then Some 1.3
      else None)"

definition temperature_threshold :: "real \<Rightarrow> real option" where
  "temperature_threshold t = (if t > 35 \<or> t < -5 then Some 1.3 else None)"

text \<open>A max-clamp: a threshold that applies can only raise the factor.\<close>

definition raise_to :: "real \<Rightarrow> real option \<Rightarrow> real" where
  "raise_to f t = (case t of None \<Rightarrow> f | Some v \<Rightarrow> max f v)"

definition applicable_thresholds :: "weather_conditions \<Rightarrow> real list" where
  "applicable_thresholds wc =
     List.map_filter id
       [precipitation_threshold (case wc_precipitation wc of None \<Rightarrow> 0 | Some p \<Rightarrow> p),
        wind_threshold (case wc_wind_speed wc of None \<Rightarrow> 0 | Some w \<Rightarrow> w),
        visibility_threshold (case wc_visibility wc of None \<Rightarrow> 10 | Some v \<Rightarrow> v),
        temperature_threshold (case wc_temperature wc of None \<Rightarrow> 20 | Some t \<Rightarrow> t)]"

definition spec_weather_factor :: "weather_conditions \<Rightarrow> real" where
  "spec_weather_factor wc = Max (set (condition_base wc # applicable_thresholds wc))"

subsection \<open>Haversine distance\<close>




text \<open>
  \<open>haversine_distance\<close> of backend/ml/route\_optimizer.py, in metres, truncated by \<open>int\<close>.
  \<open>atan2\<close> is \<open>math.atan2\<close> and \<open>py_int\<close> is \<open>int()\<close> on a float (towards zero).

  Here the rounding of float arithmetic is part of the model, because the outcome depends
  on it: between nearly antipodal points the term \<open>a\<close> can round to a float just above 1,
  then \<open>1 - a\<close> is negative and \<open>math.sqrt\<close> raises ValueError. Every float operation and
  every call of the math library returns \<open>fl\<close> of its exact result, where the parameter
  \<open>fl\<close> is the rounding of a real to a float. \<open>math.radians\<close> multiplies by the float
  constant \<open>pi / 180\<close>, itself computed from the float \<open>pi\<close>.
\<close>

record geo =
  lat :: real
  lng :: real

definition atan2 :: "real \<Rightarrow> real \<Rightarrow> real" where
  "atan2 y x =
     (if 0 < x then arctan (y / x)
      else if x < 0 then (if 0 \<le> y then arctan (y / x) + pi else arctan (y / x) - pi)
      else if 0 < y then pi / 2 else if y < 0 then - (pi / 2) else 0)"

definition py_int :: "real \<Rightarrow> int" where
  "py_int x = (if 0 \<le> x then \<lfloor>x\<rfloor> else \<lceil>x\<rceil>)"

definition math_radians :: "(real \<Rightarrow> real) \<Rightarrow> real \<Rightarrow> real" where
  "math_radians fl d = fl (d * fl (fl pi / 180))"

definition haversine_distance :: "(real \<Rightarrow> real) \<Rightarrow> geo \<Rightarrow> geo \<Rightarrow> pyerr + int" where
  "haversine_distance fl coord1 coord2 =
     (let R = 6371000;
          lat1 = math_radians fl (lat coord1); lon1 = math_radians fl (lng coord1);
          lat2 = math_radians fl (lat coord2); lon2 = math_radians fl (lng coord2);
          dlat = fl (lat2 - lat1);
          dlon = fl (lon2 - lon1);
          a = fl (fl ((fl (sin (fl (dlat / 2))))\<^sup>2)
                  + fl (fl (fl (cos lat1) * fl (cos lat2)) * fl ((fl (sin (fl (dlon / 2))))\<^sup>2)))
      in if a < 0 \<or> fl (1 - a) < 0 then Inl ValueError
         else let c = fl (2 * fl (atan2 (fl (sqrt a)) (fl (sqrt (fl (1 - a))))))
              in Inr (py_int (fl (R * c))))"

text \<open>The term \<open>a\<close> of \<open>haversine_distance\<close>, with its roundings, on radians.\<close>

definition fl_hav_a :: "(real \<Rightarrow> real) \<Rightarrow> real \<Rightarrow> real \<Rightarrow> real \<Rightarrow> real \<Rightarrow> real" where
  "fl_hav_a fl lat1 lon1 lat2 lon2 =
     fl (fl ((fl (sin (fl (fl (lat2 - lat1) / 2))))\<^sup>2)
         + fl (fl (fl (cos lat1) * fl (cos lat2))
               * fl ((fl (sin (fl (fl (lon2 - lon1) / 2))))\<^sup>2)))"


section \<open>CameraFeedManager (backend/services/camera\_feed\_manager.py)\<close>

subsection \<open>The bounded frame queue\<close>







subsection \<open>Registration of cameras\<close>

text \<open>
  The state of the manager: the queue, the capture thread (given by its source URL) and
  the callback of each camera. \<open>add_camera\<close> and \<open>remove_camera\<close> contain no \<open>raise\<close>; the
  result is a sum only to say so.
\<close>

record ('f, 'cb) manager =
  max_queue_size :: int
  camera_queues :: "string \<rightharpoonup> 'f list"
  camera_threads :: "string \<rightharpoonup> string"
  callbacks :: "string \<rightharpoonup> 'cb"

definition add_camera ::
  "string \<Rightarrow> string \<Rightarrow> 'cb option \<Rightarrow> ('f, 'cb) manager \<Rightarrow> pyerr + ('f, 'cb) manager" where
  "add_camera camera_id rtsp_url callback m =
     (if camera_id \<in> dom (camera_queues m) then Inr m
      else
        let m1 = m\<lparr>camera_queues := (camera_queues m)(camera_id \<mapsto> [])\<rparr>;
            m2 = (case callback of
                    None \<Rightarrow> m1
                  | Some cb \<Rightarrow> m1\<lparr>callbacks := (callbacks m1)(camera_id \<mapsto> cb)\<rparr>)
        in Inr (m2\<lparr>camera_threads := (camera_threads m2)(camera_id \<mapsto> rtsp_url)\<rparr>))"

definition remove_camera :: "string \<Rightarrow> ('f, 'cb) manager \<Rightarrow> ('f, 'cb) manager" where
  "remove_camera camera_id m =
     (if camera_id \<in> dom (camera_queues m) then
        m\<lparr>camera_threads := (camera_threads m)(camera_id := None),
          camera_queues := (camera_queues m)(camera_id := None),
          callbacks := (callbacks m)(camera_id := None)\<rparr>
      else m)"

section \<open>RouteOptimizationAgent camera feeds (backend/ai\_agents/route\_optimization\_agent.py)\<close>

text \<open>
  The detection collaborators are values of the agent: the colour conversion, the YOLO
  model and the tracker, each of which may raise. A detection and a tracked target carry
  the class that the code filters on. The clock \<open>datetime.utcnow()\<close> is a parameter, a
  natural number, and \<open>datetime.min\<close> is 0.
\<close>

record detection =
  det_box :: "real \<times> real \<times> real \<times> real"
  det_score :: real
  det_class :: int

record target =
  tg_tlwh :: "real \<times> real \<times> real \<times> real"
  tg_track_id :: int
  tg_class :: int
  tg_score :: real

text \<open>The dictionary of one analysis; the empty dictionary \<open>{}\<close> is \<open>None\<close>.\<close>

record traffic_data =
  td_vehicles :: "target list"
  td_density :: real
  td_is_congested :: bool
  td_vehicle_count :: nat
  td_timestamp :: nat

record camera_entry =
  ce_location :: point
  ce_last_update :: nat
  ce_traffic_conditions :: "traffic_data option"
  ce_status :: string

text \<open>The callback that \<open>add_camera_feed\<close> hands to the manager: \<open>process_frame\<close>.\<close>

datatype 'u agent_callback = ProcessFrame string "'u option"

record ('img, 'f, 'u) agent =
  cvtColor :: "'img \<Rightarrow> pyerr + 'img"
  yolo_model :: "('img \<Rightarrow> pyerr + detection list) option"
  tracker :: "(detection list \<Rightarrow> 'img \<Rightarrow> pyerr + target list) option"
  vehicle_classes :: "int list"
  traffic_jam_threshold :: nat
  traffic_density :: real
  camera_data :: "string \<rightharpoonup> camera_entry"
  active_cameras :: "string set"
  camera_manager :: "('f, 'u agent_callback) manager"

definition add_camera_feed ::
  "string \<Rightarrow> string \<Rightarrow> point \<Rightarrow> 'u option \<Rightarrow> ('img, 'f, 'u) agent
     \<Rightarrow> pyerr + ('img, 'f, 'u) agent" where
  "add_camera_feed camera_id rtsp_url location callback a =
     (if camera_id \<in> active_cameras a then Inr a
      else
        let a1 = a\<lparr>camera_data := (camera_data a)(camera_id \<mapsto>
                     \<lparr>ce_location = location, ce_last_update = 0,
                      ce_traffic_conditions = None, ce_status = ''active''\<rparr>)\<rparr>
        in case add_camera camera_id rtsp_url (Some (ProcessFrame camera_id callback))
                  (camera_manager a1) of
             Inl e \<Rightarrow> Inl e
           | Inr m \<Rightarrow>
               Inr (a1\<lparr>camera_manager := m,
                       active_cameras := insert camera_id (active_cameras a1)\<rparr>))"





subsection \<open>Example states\<close>

text \<open>
  A manager with camera \<open>cam1\<close> registered, and an agent that monitors \<open>cam1\<close>, whose
  last analysis tracked one vehicle and whose model raises on every frame.
\<close>

definition manager1 :: "(nat, unit agent_callback) manager" where
  "manager1 =
     \<lparr>max_queue_size = 10,
      camera_queues = [''cam1'' \<mapsto> []],
      camera_threads = [''cam1'' \<mapsto> ''rtsp://a''],
      callbacks = [''cam1'' \<mapsto> ProcessFrame ''cam1'' None]\<rparr>"

definition traffic1 :: traffic_data where
  "traffic1 =
     \<lparr>td_vehicles = [\<lparr>tg_tlwh = (0, 0, 10, 10), tg_track_id = 1, tg_class = 2, tg_score = 0.9\<rparr>],
      td_density = 0.02, td_is_congested = False, td_vehicle_count = 1, td_timestamp = 5\<rparr>"

definition entry1 :: camera_entry where
  "entry1 =
     \<lparr>ce_location = (12.97, 77.59), ce_last_update = 5,
      ce_traffic_conditions = Some traffic1, ce_status = ''active''\<rparr>"

definition agent1 :: "(nat, nat, unit) agent" where
  "agent1 =
     \<lparr>cvtColor = (\<lambda>img. Inr img),
      yolo_model = Some (\<lambda>img. Inl RuntimeError),
      tracker = None,
      vehicle_classes = [2, 3, 5, 7],
      traffic_jam_threshold = 10,
      traffic_density = 0.02,
      camera_data = [''cam1'' \<mapsto> entry1],
      active_cameras = {''cam1''},
      camera_manager = manager1\<rparr>"

section \<open>RouteOptimizer (ml/route\_optimization/optimizer.py)\<close>

text \<open>
  The two external collaborators of the optimizer are parameters of the model:
  \<open>cdist\<close> is \<open>_calculate_distance\<close> (the geodesic of geopy, in kilometres), and
  \<open>shortest_path\<close> is \<open>graph_builder.get_shortest_path\<close>, reduced to the total weight of the
  path it finds, or \<open>None\<close> when it finds no path.
\<close>

type_synonym distance_model = "point \<Rightarrow> point \<Rightarrow> real"

type_synonym path_model = "point \<Rightarrow> point \<Rightarrow> real option"

text \<open>A vehicle dictionary: \<open>id\<close>, \<open>type\<close>, and \<open>load_kg\<close> if present.\<close>

record vehicle =
  v_id :: string
  v_type :: string
  v_load_kg :: "real option"

subsection \<open>Clustering\<close>

text \<open>The slices \<open>xs[:n]\<close> and \<open>xs[n:]\<close> of Python, for any integer \<open>n\<close>.\<close>

definition slice_to :: "int \<Rightarrow> 'a list \<Rightarrow> 'a list" where
  "slice_to n xs = (if 0 \<le> n then take (nat n) xs else take (length xs - nat (- n)) xs)"

definition slice_from :: "int \<Rightarrow> 'a list \<Rightarrow> 'a list" where
  "slice_from n xs = (if 0 \<le> n then drop (nat n) xs else drop (length xs - nat (- n)) xs)"

text \<open>
  The round-robin loop of \<open>_cluster_stops\<close> over \<open>enumerate(stops)\<close>. With no cluster,
  \<open>i % num_clusters\<close> raises ZeroDivisionError at the first stop.
\<close>

fun round_robin :: "nat \<Rightarrow> (nat \<times> 'a) list \<Rightarrow> 'a list list \<Rightarrow> pyerr + 'a list list" where
  "round_robin num_clusters [] clusters = Inr clusters"
| "round_robin num_clusters ((i, stop) # rest) clusters =
     (if num_clusters = 0 then Inl ZeroDivisionError
      else round_robin num_clusters rest
             (clusters[i mod num_clusters := clusters ! (i mod num_clusters) @ [stop]]))"

text \<open>
  The \<open>while\<close> loop that cuts one cluster into pieces of at most \<open>max_per_cluster\<close> stops.
  It returns the final clusters so far and what is left of the cluster. For
  \<open>max_per_cluster \<le> 0\<close> the loop, once entered, does not end: the result is \<open>None\<close>.
\<close>

partial_function (option) split_cluster ::
  "int \<Rightarrow> 'a list \<Rightarrow> 'a list list \<Rightarrow> ('a list list \<times> 'a list) option" where
  "split_cluster max_per_cluster cluster final_clusters =
     (if int (length cluster) > max_per_cluster
      then split_cluster max_per_cluster (slice_from max_per_cluster cluster)
             (final_clusters @ [slice_to max_per_cluster cluster])
      else Some (final_clusters, cluster))"

fun split_clusters :: "int \<Rightarrow> 'a list list \<Rightarrow> 'a list list \<Rightarrow> 'a list list option" where
  "split_clusters max_per_cluster [] final_clusters = Some final_clusters"
| "split_clusters max_per_cluster (cluster # rest) final_clusters =
     (case split_cluster max_per_cluster cluster final_clusters of
        None \<Rightarrow> None
      | Some (final_clusters', cluster') \<Rightarrow>
          split_clusters max_per_cluster rest
            (if cluster' \<noteq> [] then final_clusters' @ [cluster'] else final_clusters'))"

text \<open>\<open>_cluster_stops\<close>: \<open>None\<close> if it does not return, otherwise the exception or the clusters.\<close>

definition cluster_stops :: "'a list \<Rightarrow> nat \<Rightarrow> int \<Rightarrow> (pyerr + 'a list list) option" where
  "cluster_stops stops num_clusters max_per_cluster =
     (case round_robin num_clusters (enumerate 0 stops) (replicate num_clusters []) of
        Inl e \<Rightarrow> Some (Inl e)
      | Inr clusters \<Rightarrow> map_option Inr (split_clusters max_per_cluster clusters []))"

subsection \<open>Sequencing\<close>

text \<open>\<open>d < min_dist\<close>, where \<open>None\<close> is the initial \<open>float('inf')\<close>.\<close>

definition lt_inf :: "real \<Rightarrow> real option \<Rightarrow> bool" where
  "lt_inf d bound = (case bound of None \<Rightarrow> True | Some b \<Rightarrow> d < b)"

text \<open>\<open>itertools.permutations\<close>: all orders of a list, in lexicographic order of positions.\<close>

function permutations :: "'a list \<Rightarrow> 'a list list" where
  "permutations xs =
     (if xs = [] then [[]]
      else concat (map (\<lambda>i. map ((#) (xs ! i)) (permutations (take i xs @ drop (Suc i) xs)))
                     [0..<length xs]))"
  by pat_completeness auto
termination
  by (relation "measure length") auto

definition path_distance :: "distance_model \<Rightarrow> point list \<Rightarrow> nat list \<Rightarrow> real" where
  "path_distance cdist stops path =
     sum_list (map (\<lambda>i. cdist (stops ! (path ! i)) (stops ! (path ! (i + 1))))
                 [0..<length path - 1])"

fun brute_force_loop ::
  "distance_model \<Rightarrow> point list \<Rightarrow> nat list list \<Rightarrow> nat list option \<times> real option
     \<Rightarrow> nat list option \<times> real option" where
  "brute_force_loop cdist stops [] best = best"
| "brute_force_loop cdist stops (perm # perms) (best_path, best_distance) =
     (let path = [0] @ perm @ [0];
          distance = path_distance cdist stops path
      in if lt_inf distance best_distance
         then brute_force_loop cdist stops perms (Some path, Some distance)
         else brute_force_loop cdist stops perms (best_path, best_distance))"

text \<open>
  Reading a name: the value bound to it, or NameError if nothing binds it.
\<close>

definition load_name :: "(string \<times> 'a) list \<Rightarrow> string \<Rightarrow> pyerr + 'a" where
  "load_name scope name = (case map_of scope name of None \<Rightarrow> Inl NameError | Some v \<Rightarrow> Inr v)"

text \<open>
  \<open>_brute_force_tsp\<close>. Its first statement binds \<open>num_stops\<close>; its second reads \<open>num_steps\<close>.
  The integers in scope at that point are listed in the scope of the model; the
  other names bound there (\<open>self\<close>, \<open>stops\<close>, the imports and the class of the module, the
  builtins) are not called \<open>num_steps\<close> either. \<open>best_path[1:-1]\<close> on \<open>None\<close> is a TypeError.
\<close>

definition brute_force_tsp :: "distance_model \<Rightarrow> point list \<Rightarrow> pyerr + nat list" where
  "brute_force_tsp cdist stops =
     (let num_stops = length stops
      in case load_name [(''num_stops'', num_stops)] ''num_steps'' of
           Inl e \<Rightarrow> Inl e
         | Inr num_steps \<Rightarrow>
             if num_steps \<le> 1 then Inr [0..<num_steps]
             else
               (case brute_force_loop cdist stops (permutations [1..<num_stops]) (None, None) of
                  (None, _) \<Rightarrow> Inl TypeError
                | (Some best_path, _) \<Rightarrow> Inr (butlast (tl best_path))))"

text \<open>
  \<open>_nearest_neighbor_tsp\<close>: the scan over \<open>j\<close> for the nearest unvisited stop, the loop that
  extends the path, and the function. On an empty list \<open>visited[0] = True\<close> is an IndexError.
\<close>

fun nearest_scan ::
  "distance_model \<Rightarrow> point list \<Rightarrow> bool list \<Rightarrow> nat \<Rightarrow> nat list \<Rightarrow> nat option \<times> real option
     \<Rightarrow> nat option \<times> real option" where
  "nearest_scan cdist stops visited cur [] found = found"
| "nearest_scan cdist stops visited cur (j # js) (nearest, min_dist) =
     (if \<not> visited ! j then
        (let d = cdist (stops ! cur) (stops ! j)
         in if lt_inf d min_dist
            then nearest_scan cdist stops visited cur js (Some j, Some d)
            else nearest_scan cdist stops visited cur js (nearest, min_dist))
      else nearest_scan cdist stops visited cur js (nearest, min_dist))"

fun nearest_loop ::
  "distance_model \<Rightarrow> point list \<Rightarrow> nat \<Rightarrow> nat list \<times> bool list \<Rightarrow> nat list \<times> bool list" where
  "nearest_loop cdist stops 0 state = state"
| "nearest_loop cdist stops (Suc k) (path, visited) =
     (case fst (nearest_scan cdist stops visited (last path) [0..<length stops] (None, None)) of
        None \<Rightarrow> nearest_loop cdist stops k (path, visited)
      | Some nearest \<Rightarrow> nearest_loop cdist stops k (path @ [nearest], visited[nearest := True]))"

definition nearest_neighbor_tsp :: "distance_model \<Rightarrow> point list \<Rightarrow> pyerr + nat list" where
  "nearest_neighbor_tsp cdist stops =
     (let num_stops = length stops
      in if num_stops = 0 then Inl IndexError
         else
           (let (path, visited) =
                  nearest_loop cdist stops (num_stops - 1)
                    ([0], (replicate num_stops False)[0 := True])
            in Inr (tl path)))"

definition solve_tsp :: "distance_model \<Rightarrow> point list \<Rightarrow> pyerr + nat list" where
  "solve_tsp cdist stops =
     (let num_stops = length stops
      in if num_stops \<le> 8 then brute_force_tsp cdist stops
         else nearest_neighbor_tsp cdist stops)"

subsection \<open>Route metrics and the solution\<close>

text \<open>The legs that \<open>_calculate_route_metrics\<close> walks: \<open>(route[i], route[i+1])\<close>.\<close>

definition route_legs :: "point list \<Rightarrow> (point \<times> point) list" where
  "route_legs route = map (\<lambda>i. (route ! i, route ! (i + 1))) [0..<length route - 1]"

record route_info =
  ri_distance_km :: real
  ri_time_minutes :: real
  ri_fuel_liters :: real
  ri_emissions_kg :: real

definition calculate_route_metrics ::
  "distance_model \<Rightarrow> path_model \<Rightarrow> vehicle \<Rightarrow> point list \<Rightarrow> string \<Rightarrow> route_info" where
  "calculate_route_metrics cdist shortest_path vehicle route time_of_day =
     (let (total_distance, total_time) =
            fold (\<lambda>(origin, dest) (total_distance, total_time).
                    case shortest_path origin dest of
                      None \<Rightarrow> (total_distance, total_time)
                    | Some segment_time \<Rightarrow>
                        (total_distance + cdist origin dest, total_time + segment_time))
              (route_legs route) (0, 0);
          fuel_info =
            calculate_fuel_consumption total_distance (v_type vehicle)
              (case v_load_kg vehicle of None \<Rightarrow> 0 | Some l \<Rightarrow> l) 50 0 ''average''
      in \<lparr>ri_distance_km = total_distance,
          ri_time_minutes = total_time / 60,
          ri_fuel_liters = total_fuel_liters fuel_info,
          ri_emissions_kg = emissions_kg_co2 fuel_info\<rparr>)"

text \<open>An entry of \<open>routes\<close>, the \<open>summary\<close>, and the dictionary that \<open>optimize_routes\<close> returns.\<close>

record vehicle_route =
  r_vehicle_id :: string
  r_vehicle_type :: string
  r_stops :: "point list"
  r_distance_km :: real
  r_time_minutes :: real
  r_fuel_liters :: real
  r_emissions_kg :: real

record summary =
  total_distance_km :: real
  total_time_minutes :: real
  total_fuel :: real
  total_emissions_kg :: real
  num_vehicles_used :: nat

record routing_solution =
  routes :: "vehicle_route list"
  summary :: summary

text \<open>The loop of \<open>optimize_routes\<close> over \<open>zip(vehicles, clusters)\<close>.\<close>

fun routes_loop ::
  "distance_model \<Rightarrow> path_model \<Rightarrow> point \<Rightarrow> string \<Rightarrow> (vehicle \<times> point list) list
     \<Rightarrow> vehicle_route list \<Rightarrow> pyerr + vehicle_route list" where
  "routes_loop cdist shortest_path depot time_of_day [] optimized_routes = Inr optimized_routes"
| "routes_loop cdist shortest_path depot time_of_day ((vehicle, vehicle_stops) # rest)
       optimized_routes =
     (if vehicle_stops = [] then
        routes_loop cdist shortest_path depot time_of_day rest optimized_routes
      else
        (let route_stops = [depot] @ vehicle_stops @ [depot]
         in case solve_tsp cdist route_stops of
              Inl e \<Rightarrow> Inl e
            | Inr optimal_order \<Rightarrow>
                (let route = map (\<lambda>i. route_stops ! i) optimal_order;
                     route_info =
                       calculate_route_metrics cdist shortest_path vehicle route time_of_day
                 in routes_loop cdist shortest_path depot time_of_day rest
                      (optimized_routes @
                         [\<lparr>r_vehicle_id = v_id vehicle,
                           r_vehicle_type = v_type vehicle,
                           r_stops = route,
                           r_distance_km = ri_distance_km route_info,
                           r_time_minutes = ri_time_minutes route_info,
                           r_fuel_liters = ri_fuel_liters route_info,
                           r_emissions_kg = ri_emissions_kg route_info\<rparr>]))))"

text \<open>
  \<open>optimize_routes\<close>: \<open>None\<close> if it does not return, otherwise the exception or the solution.
  The totals of the summary add up the routes in order, from 0. Fetching the road network,
  the first step of the source, belongs to the external path model.
\<close>

definition optimize_routes ::
  "distance_model \<Rightarrow> path_model \<Rightarrow> vehicle list \<Rightarrow> point list \<Rightarrow> point \<Rightarrow> string \<Rightarrow> int
     \<Rightarrow> (pyerr + routing_solution) option" where
  "optimize_routes cdist shortest_path vehicles stops depot time_of_day max_stops_per_vehicle =
     (let num_vehicles = length vehicles
      in case cluster_stops stops num_vehicles max_stops_per_vehicle of
           None \<Rightarrow> None
         | Some (Inl e) \<Rightarrow> Some (Inl e)
         | Some (Inr clusters) \<Rightarrow>
             (case routes_loop cdist shortest_path depot time_of_day (zip vehicles clusters) [] of
                Inl e \<Rightarrow> Some (Inl e)
              | Inr optimized_routes \<Rightarrow>
                  (let total_distance = fold (\<lambda>r t. t + r_distance_km r) optimized_routes 0;
                       total_time = fold (\<lambda>r t. t + r_time_minutes r) optimized_routes 0;
                       total_fuel = fold (\<lambda>r t. t + r_fuel_liters r) optimized_routes 0
                   in Some (Inr
                        \<lparr>routes = optimized_routes,
                         summary =
                           \<lparr>total_distance_km = total_distance,
                            total_time_minutes = total_time,
                            total_fuel = total_fuel,
                            total_emissions_kg = total_fuel * 2.31,
                            num_vehicles_used =
                              length (filter (\<lambda>r. length (r_stops r) > 2)
                                        optimized_routes)\<rparr>\<rparr>))))"

subsection \<open>An example request\<close>

text \<open>
  A distance and a path model to run the optimizer on, in place of the geodesic and of
  the road network: the distance is 111 km per degree of latitude and of longitude, and
  every segment has a path, driven at 50 km/h (72 seconds per kilometre). The points of
  the example lie on one meridian, where this distance and the geodesic put the pairs of
  points in the same order.
\<close>

definition flat_dist :: distance_model where
  "flat_dist p q = 111 * (\<bar>fst p - fst q\<bar> + \<bar>snd p - snd q\<bar>)"

definition direct_path :: path_model where
  "direct_path p q = Some (72 * flat_dist p q)"

definition depot1 :: point where
  "depot1 = (12.90, 77.60)"

definition stops7 :: "point list" where
  "stops7 = [(12.91, 77.60), (12.92, 77.60), (12.93, 77.60), (12.94, 77.60),
             (12.95, 77.60), (12.96, 77.60), (12.97, 77.60)]"


definition truck1 :: vehicle where
  "truck1 = \<lparr>v_id = ''Truck-1'', v_type = ''truck'', v_load_kg = None\<rparr>"

text \<open>The route and the solution that the optimizer returns for \<open>truck1\<close> and \<open>stops7\<close>.\<close>

definition route7 :: vehicle_route where
  "route7 =
     \<lparr>r_vehicle_id = ''Truck-1'', r_vehicle_type = ''truck'',
      r_stops = [(12.90, 77.60), (12.91, 77.60), (12.92, 77.60), (12.93, 77.60),
                 (12.94, 77.60), (12.95, 77.60), (12.96, 77.60), (12.97, 77.60)],
      r_distance_km = 7.77, r_time_minutes = 9.324, r_fuel_liters = 2.331,
      r_emissions_kg = 5.38461\<rparr>"

definition solution7 :: routing_solution where
  "solution7 =
     \<lparr>routes = [route7],
      summary =
        \<lparr>total_distance_km = 7.77, total_time_minutes = 9.324, total_fuel = 2.331,
         total_emissions_kg = 5.38461, num_vehicles_used = 1\<rparr>\<rparr>"

chapter \<open>Properties\<close>

section \<open>Fuel and emissions\<close>

text \<open>
  Claim C6. For every distance, vehicle type, load, average speed, elevation gain and road
  condition, the fuel computed by \<open>calculate_fuel_consumption\<close> is the base rate of the
  (lower-cased) vehicle type (sedan 7.5, suv 10.0, truck 25.0, van 12.0, any other type the
  default 10.0) times \<open>1 + 0.001 * load\<close>, times \<open>1 + max 0 (speed - 60) * 0.001\<close>, times the
  elevation factor (1 when there is no gain), times the road-condition factor (average gives
  1.2), divided by 100 and multiplied by the distance; the emissions are the fuel times 2.31.
\<close>

theorem C6_fuel_formula:
  "total_fuel_liters (calculate_fuel_consumption d vt load_kg speed gain rc)
     = spec_fuel d (lower vt) load_kg speed gain (lower rc)
   \<and> emissions_kg_co2 (calculate_fuel_consumption d vt load_kg speed gain rc)
     = total_fuel_liters (calculate_fuel_consumption d vt load_kg speed gain rc) * 2.31
   \<and> spec_base_rate ''sedan'' = 7.5 \<and> spec_base_rate ''suv'' = 10.0
   \<and> spec_base_rate ''truck'' = 25.0 \<and> spec_base_rate ''van'' = 12.0
   \<and> spec_elevation_factor 0 = 1 \<and> spec_road_factor ''average'' = 1.2"
proof -
  let ?r = "calculate_fuel_consumption d vt load_kg speed gain rc"
  have b: "base_consumption_l_per_100km ?r = spec_base_rate (lower vt)"
    by (simp add: calculate_fuel_consumption_def Let_def dict_get_def base_consumption_def
        spec_base_rate_def)
  have r: "road_condition_f ?r = spec_road_factor (lower rc)"
    by (simp add: calculate_fuel_consumption_def Let_def dict_get_def
        factors_road_condition_def spec_road_factor_def)
  have t: "total_fuel_liters ?r
      = base_consumption_l_per_100km ?r * (1 + 0.001 * load_kg)
        * (1 + max 0 (speed - 60) * 0.001) * spec_elevation_factor gain
        * road_condition_f ?r / 100 * d"
    by (simp add: calculate_fuel_consumption_def Let_def factors_load_def
        factors_speed_optimal_def factors_speed_penalty_def factors_elevation_def
        spec_elevation_factor_def)
  have fuel: "total_fuel_liters ?r = spec_fuel d (lower vt) load_kg speed gain (lower rc)"
    unfolding t b r spec_fuel_def by (rule refl)
  have em: "emissions_kg_co2 ?r = total_fuel_liters ?r * 2.31"
    by (simp add: calculate_fuel_consumption_def Let_def)
  have tab: "spec_base_rate ''sedan'' = 7.5 \<and> spec_base_rate ''suv'' = 10.0
      \<and> spec_base_rate ''truck'' = 25.0 \<and> spec_base_rate ''van'' = 12.0
      \<and> spec_elevation_factor 0 = 1 \<and> spec_road_factor ''average'' = 1.2"
    by (simp add: spec_base_rate_def spec_elevation_factor_def spec_road_factor_def)
  from fuel em tab show ?thesis by blast
qed

section \<open>Haversine distance\<close>







lemma haversine_distance_unfold:
  "haversine_distance fl c1 c2 =
     (let a = fl_hav_a fl (math_radians fl (lat c1)) (math_radians fl (lng c1))
                (math_radians fl (lat c2)) (math_radians fl (lng c2))
      in if a < 0 \<or> fl (1 - a) < 0 then Inl ValueError
         else let c = fl (2 * fl (atan2 (fl (sqrt a)) (fl (sqrt (fl (1 - a))))))
              in Inr (py_int (fl (6371000 * c))))"
  unfolding haversine_distance_def fl_hav_a_def Let_def by (rule refl)










text \<open>
  When rounding takes the term \<open>a\<close> above 1 by so much that \<open>1 - a\<close> rounds to a negative
  float, \<open>haversine_distance\<close> raises.
\<close>

lemma haversine_distance_raises:
  assumes "fl (1 - fl_hav_a fl (math_radians fl (lat p)) (math_radians fl (lng p))
                     (math_radians fl (lat q)) (math_radians fl (lng q))) < 0"
  shows "haversine_distance fl p q = Inl ValueError"
  using assms by (simp add: haversine_distance_unfold)



section \<open>Weather factor\<close>

lemma condition_factors_ge_1: "1 \<le> dict_get condition_factors k 1.0"
  by (simp add: dict_get_def condition_factors_def)

lemma Max_thresholds:
  "Max (set (b # List.map_filter id [o1, o2, o3, o4]))
     = raise_to (raise_to (raise_to (raise_to b o1) o2) o3) o4"
  by (cases o1; cases o2; cases o3; cases o4)
     (simp_all add: raise_to_def List.map_filter_simps max.assoc max.commute max.left_commute)

lemma precipitation_step:
  "(if p > 10 then max f 1.7 else if p > 5 then max f 1.5 else if p > 2 then max f 1.2 else f)
     = raise_to f (precipitation_threshold p)"
  by (simp add: raise_to_def precipitation_threshold_def)

lemma wind_step:
  "(if w > 50 then max f 2.0 else if w > 30 then max f 1.5 else if w > 20 then max f 1.2 else f)
     = raise_to f (wind_threshold w)"
  by (simp add: raise_to_def wind_threshold_def)

lemma visibility_step:
  "(if v < 0.1 then max f 2.0 else if v < 0.5 then max f 1.7 else if v < 1 then max f 1.3 else f)
     = raise_to f (visibility_threshold v)"
  by (simp add: raise_to_def visibility_threshold_def)

lemma temperature_step:
  "(if t > 35 \<or> t < -5 then max f 1.3 else f) = raise_to f (temperature_threshold t)"
  by (simp add: raise_to_def temperature_threshold_def)

lemma raise_to_ge: "f \<le> raise_to f t"
  by (simp add: raise_to_def split: option.split)

lemma weather_factor_is_max: "get_weather_factor loc wc = spec_weather_factor wc"
proof -
  let ?b = "condition_base wc"
  let ?p = "precipitation_threshold (case wc_precipitation wc of None \<Rightarrow> 0 | Some p \<Rightarrow> p)"
  let ?w = "wind_threshold (case wc_wind_speed wc of None \<Rightarrow> 0 | Some w \<Rightarrow> w)"
  let ?v = "visibility_threshold (case wc_visibility wc of None \<Rightarrow> 10 | Some v \<Rightarrow> v)"
  let ?t = "temperature_threshold (case wc_temperature wc of None \<Rightarrow> 20 | Some t \<Rightarrow> t)"
  let ?m = "raise_to (raise_to (raise_to (raise_to ?b ?p) ?w) ?v) ?t"
  have g: "get_weather_factor loc wc = max 1.0 ?m"
    unfolding get_weather_factor_def Let_def precipitation_step wind_step visibility_step
      temperature_step condition_base_def
    by (rule refl)
  have "1 \<le> ?b" unfolding condition_base_def by (rule condition_factors_ge_1)
  also have "?b \<le> ?m"
    by (meson raise_to_ge order_trans)
  finally have "max 1.0 ?m = ?m" by simp
  with g show ?thesis
    by (simp only: spec_weather_factor_def applicable_thresholds_def Max_thresholds)
qed

lemma weather_factor_ge_1: "1 \<le> get_weather_factor loc wc"
  unfolding get_weather_factor_def Let_def by (rule order_trans [OF _ max.cobounded1]) simp

text \<open>
  Claim C5. For every weather record, the weather factor is the maximum of the base value
  of the condition table (clear and clouds 1.0, up to tornado 3.0) and of the precipitation,
  wind-speed, visibility and temperature threshold values that apply, and it is never
  below 1.0.
\<close>

theorem C5_weather_factor_max:
  "get_weather_factor loc wc = spec_weather_factor wc
   \<and> 1 \<le> get_weather_factor loc wc
   \<and> dict_get condition_factors ''clear'' 1.0 = 1.0
   \<and> dict_get condition_factors ''clouds'' 1.0 = 1.0
   \<and> dict_get condition_factors ''tornado'' 1.0 = 3.0"
proof -
  have t1: "dict_get condition_factors ''clear'' 1.0 = 1.0"
    by (simp add: dict_get_def condition_factors_def)
  have t2: "dict_get condition_factors ''clouds'' 1.0 = 1.0"
    by (simp add: dict_get_def condition_factors_def)
  have t3: "dict_get condition_factors ''tornado'' 1.0 = 3.0"
    by (simp add: dict_get_def condition_factors_def)
  show ?thesis
    using weather_factor_is_max [of loc wc] weather_factor_ge_1 [of loc wc] t1 t2 t3
    by (intro conjI)
qed

section \<open>Traffic factor\<close>

lemma incident_loop_product:
  "incident_loop s e incs b
     = b * prod_list (map severity_multiplier (filter (within_corridor s e) incs))"
proof (induction incs arbitrary: b)
  case Nil
  show ?case by simp
next
  case (Cons inc rest)
  have st: "incident_step s e inc b
      = (if within_corridor s e inc then b * severity_multiplier inc else b)"
    by (simp add: incident_step_def within_corridor_def severity_multiplier_def Let_def)
  show ?case
    by (simp add: Cons.IH st mult.assoc)
qed

lemma traffic_factor_closed_form:
  "get_traffic_factor s e tc
     = spec_traffic_factor s e (case tc_density tc of None \<Rightarrow> 0.5 | Some d \<Rightarrow> d)
         (case tc_incidents tc of None \<Rightarrow> [] | Some l \<Rightarrow> l)"
  unfolding get_traffic_factor_def Let_def spec_traffic_factor_def incident_loop_product
  by simp

text \<open>
  Claim C3 states that the traffic factor is exactly 1.0 when no traffic data is supplied.
  With neither a density nor incidents the code takes the density 0.5, so the factor of
  any leg, here the one of the specification's scenario, is 1.75.
\<close>

theorem C3_no_traffic_data_counterexample:
  "get_traffic_factor (12.9698, 77.7500) (12.9716, 77.5946) no_traffic_data \<noteq> 1.0"
  by (simp add: get_traffic_factor_def no_traffic_data_def)

text \<open>
  Claim C3, amended. For every leg and traffic snapshot, the traffic factor is
  \<open>1.0 + density * 1.5\<close>, where a missing density counts as 0.5, multiplied by 1.2, 1.5 or
  2.0 for each incident of low, medium or high severity within 0.01 degrees (about 1 km)
  of the straight-line leg, and floored at 1.0; when no traffic data is supplied the
  traffic factor is 1.75.
\<close>

theorem C3_traffic_factor_amended:
  "get_traffic_factor s e tc
     = spec_traffic_factor s e (case tc_density tc of None \<Rightarrow> 0.5 | Some d \<Rightarrow> d)
         (case tc_incidents tc of None \<Rightarrow> [] | Some l \<Rightarrow> l)
   \<and> 1 \<le> get_traffic_factor s e tc
   \<and> get_traffic_factor s e no_traffic_data = 1.75
   \<and> severity_multiplier \<lparr>inc_location = l, inc_severity = Some ''low''\<rparr> = 1.2
   \<and> severity_multiplier \<lparr>inc_location = l, inc_severity = Some ''medium''\<rparr> = 1.5
   \<and> severity_multiplier \<lparr>inc_location = l, inc_severity = Some ''high''\<rparr> = 2.0"
proof -
  have ge: "1 \<le> get_traffic_factor s e tc"
    unfolding get_traffic_factor_def Let_def by (rule order_trans [OF _ max.cobounded1]) simp
  have none: "get_traffic_factor s e no_traffic_data = 1.75"
    by (simp add: get_traffic_factor_def no_traffic_data_def)
  have s1: "severity_multiplier \<lparr>inc_location = l, inc_severity = Some ''low''\<rparr> = 1.2"
    by (simp add: severity_multiplier_def)
  have s2: "severity_multiplier \<lparr>inc_location = l, inc_severity = Some ''medium''\<rparr> = 1.5"
    by (simp add: severity_multiplier_def)
  have s3: "severity_multiplier \<lparr>inc_location = l, inc_severity = Some ''high''\<rparr> = 2.0"
    by (simp add: severity_multiplier_def)
  show ?thesis
    using traffic_factor_closed_form [of s e tc] ge none s1 s2 s3
    by (intro conjI)
qed

section \<open>Frame queue\<close>










section \<open>Registration of cameras\<close>

lemma add_camera_duplicate:
  "camera_id \<in> dom (camera_queues m) \<Longrightarrow> add_camera camera_id rtsp_url callback m = Inr m"
  by (simp add: add_camera_def)

lemma add_camera_feed_duplicate:
  "camera_id \<in> active_cameras a \<Longrightarrow>
     add_camera_feed camera_id rtsp_url location callback a = Inr a"
  by (simp add: add_camera_feed_def)

text \<open>
  Claim C9 states that registering an identifier that is already registered is rejected
  with an error. Here camera \<open>cam1\<close> is registered, and registering \<open>cam1\<close> again with another
  URL returns normally, from the feed manager and from the agent: the result is not an
  error.
\<close>

theorem C9_duplicate_not_rejected_counterexample:
  "add_camera ''cam1'' ''rtsp://b'' (Some (ProcessFrame ''cam1'' None)) manager1 = Inr manager1
   \<and> add_camera_feed ''cam1'' ''rtsp://b'' (12.97, 77.59) None agent1 = Inr agent1"
  by (simp add: add_camera_def add_camera_feed_def manager1_def agent1_def)

text \<open>
  Claim C9, amended. Registering a camera under an identifier that is already registered is
  ignored: the call returns normally, no error is raised, and the registration state is
  unchanged, in the feed manager and in the agent.
\<close>

theorem C9_duplicate_registration_amended:
  "(camera_id \<in> dom (camera_queues m) \<longrightarrow>
      add_camera camera_id rtsp_url callback m = Inr m)
   \<and> (camera_id \<in> active_cameras a \<longrightarrow>
      add_camera_feed camera_id rtsp_url location ucallback a = Inr a)"
proof -
  have f1: "camera_id \<in> dom (camera_queues m) \<longrightarrow>
      add_camera camera_id rtsp_url callback m = Inr m"
    by (simp add: add_camera_duplicate)
  have f2: "camera_id \<in> active_cameras a \<longrightarrow>
      add_camera_feed camera_id rtsp_url location ucallback a = Inr a"
    by (simp add: add_camera_feed_duplicate)
  show ?thesis
    using f1 f2 by (intro conjI)
qed

theorem C9_duplicate_registration_amended_witness:
  "''cam1'' \<in> dom (camera_queues manager1) \<and> ''cam1'' \<in> active_cameras agent1
   \<and> add_camera ''cam1'' ''rtsp://b'' (Some (ProcessFrame ''cam1'' None)) manager1 = Inr manager1
   \<and> add_camera_feed ''cam1'' ''rtsp://b'' (12.97, 77.59) None agent1 = Inr agent1"
  using C9_duplicate_registration_amended [of "''cam1''" manager1 "''rtsp://b''"
      "Some (ProcessFrame ''cam1'' None)" agent1 "(12.97, 77.59)" None]
  by (simp add: manager1_def agent1_def)

section \<open>Detection failure\<close>








section \<open>Sequencing\<close>

lemma brute_force_tsp_raises: "brute_force_tsp cdist stops = Inl NameError"
  by (simp add: brute_force_tsp_def load_name_def)

lemma solve_tsp_small: "length stops \<le> 8 \<Longrightarrow> solve_tsp cdist stops = Inl NameError"
  by (simp add: solve_tsp_def brute_force_tsp_raises)

lemma solve_tsp_large:
  "8 < length stops \<Longrightarrow> solve_tsp cdist stops = nearest_neighbor_tsp cdist stops"
  by (simp add: solve_tsp_def)

section \<open>Nearest neighbour\<close>

lemma nearest_scan_source:
  "fst (nearest_scan cdist stops visited cur js (nearest, min_dist)) = Some k \<Longrightarrow>
     nearest = Some k \<or> (k \<in> set js \<and> \<not> visited ! k)"
proof (induction js arbitrary: nearest min_dist)
  case Nil
  thus ?case by simp
next
  case (Cons j js)
  show ?case
  proof (cases "visited ! j")
    case True
    with Cons.prems have
      "fst (nearest_scan cdist stops visited cur js (nearest, min_dist)) = Some k"
      by simp
    from Cons.IH [OF this] show ?thesis by auto
  next
    case False
    show ?thesis
    proof (cases "lt_inf (cdist (stops ! cur) (stops ! j)) min_dist")
      case True
      with False Cons.prems have
        "fst (nearest_scan cdist stops visited cur js
                (Some j, Some (cdist (stops ! cur) (stops ! j)))) = Some k"
        by (simp add: Let_def)
      from Cons.IH [OF this] False show ?thesis by auto
    next
      case nlt: False
      with False Cons.prems have
        "fst (nearest_scan cdist stops visited cur js (nearest, min_dist)) = Some k"
        by (simp add: Let_def)
      from Cons.IH [OF this] show ?thesis by auto
    qed
  qed
qed

lemma nearest_scan_none:
  "(nearest = None \<longrightarrow> min_dist = None) \<Longrightarrow>
   fst (nearest_scan cdist stops visited cur js (nearest, min_dist)) = None \<Longrightarrow>
     nearest = None \<and> (\<forall>j\<in>set js. visited ! j)"
proof (induction js arbitrary: nearest min_dist)
  case Nil
  thus ?case by simp
next
  case (Cons j js)
  show ?case
  proof (cases "visited ! j")
    case True
    with Cons.prems(2) have
      "fst (nearest_scan cdist stops visited cur js (nearest, min_dist)) = None"
      by simp
    from Cons.IH [OF Cons.prems(1) this] True show ?thesis by simp
  next
    case False
    show ?thesis
    proof (cases "lt_inf (cdist (stops ! cur) (stops ! j)) min_dist")
      case True
      with False Cons.prems(2) have
        "fst (nearest_scan cdist stops visited cur js
                (Some j, Some (cdist (stops ! cur) (stops ! j)))) = None"
        by (simp add: Let_def)
      moreover have "Some j = None \<longrightarrow> Some (cdist (stops ! cur) (stops ! j)) = None"
        by simp
      ultimately have "Some j = None \<and> (\<forall>j\<in>set js. visited ! j)"
        by (rule Cons.IH [rotated])
      thus ?thesis by simp
    next
      case nlt: False
      hence "min_dist \<noteq> None" by (cases min_dist) (simp_all add: lt_inf_def)
      with Cons.prems(1) have nn: "nearest \<noteq> None" by blast
      from False nlt Cons.prems(2) have
        "fst (nearest_scan cdist stops visited cur js (nearest, min_dist)) = None"
        by (simp add: Let_def)
      from Cons.IH [OF Cons.prems(1) this] nn show ?thesis by simp
    qed
  qed
qed

lemma unvisited_exists:
  assumes "distinct path" and "set path \<subseteq> {..<n}" and "length path < n"
  shows "\<exists>j<n. j \<notin> set path"
proof (rule ccontr)
  assume "\<not> (\<exists>j<n. j \<notin> set path)"
  hence "{..<n} \<subseteq> set path" by blast
  hence "card {..<n} \<le> card (set path)" by (intro card_mono) simp_all
  moreover have "card (set path) = length path" using assms(1) by (rule distinct_card)
  ultimately show False using assms(3) by simp
qed

lemma nearest_scan_finds:
  assumes "j < length stops" and "\<not> visited ! j"
  shows "\<exists>nearest. fst (nearest_scan cdist stops visited cur [0..<length stops] (None, None))
            = Some nearest \<and> nearest < length stops \<and> \<not> visited ! nearest"
proof -
  let ?r = "nearest_scan cdist stops visited cur [0..<length stops] (None, None)"
  have "fst ?r \<noteq> None"
  proof
    assume a: "fst ?r = None"
    have "(None :: nat option) = None \<longrightarrow> (None :: real option) = None" by simp
    from nearest_scan_none [OF this a]
    have "\<forall>i\<in>set [0..<length stops]. visited ! i" by (rule conjunct2)
    moreover have "j \<in> set [0..<length stops]" using assms(1) by simp
    ultimately have "visited ! j" by (rule bspec)
    with assms(2) show False by (rule notE)
  qed
  then obtain nearest where f: "fst ?r = Some nearest" by (cases "fst ?r") simp_all
  from nearest_scan_source [OF f]
  have "nearest \<in> set [0..<length stops] \<and> \<not> visited ! nearest" by simp
  hence "nearest < length stops" "\<not> visited ! nearest" by simp_all
  with f show ?thesis by (intro exI conjI)
qed

lemma nearest_loop_inv:
  "length visited = length stops \<Longrightarrow> path \<noteq> [] \<Longrightarrow> distinct path \<Longrightarrow>
   set path \<subseteq> {..<length stops} \<Longrightarrow>
   (\<forall>j<length stops. visited ! j \<longleftrightarrow> j \<in> set path) \<Longrightarrow>
   length path + k \<le> length stops \<Longrightarrow>
     length (fst (nearest_loop cdist stops k (path, visited))) = length path + k
       \<and> distinct (fst (nearest_loop cdist stops k (path, visited)))
       \<and> set (fst (nearest_loop cdist stops k (path, visited))) \<subseteq> {..<length stops}
       \<and> hd (fst (nearest_loop cdist stops k (path, visited))) = hd path"
proof (induction k arbitrary: path visited)
  case 0
  thus ?case by simp
next
  case (Suc k)
  let ?n = "length stops"
  have lt: "length path < ?n" using Suc.prems(6) by simp
  from unvisited_exists [OF Suc.prems(3) Suc.prems(4) lt]
  obtain j where j: "j < ?n" "j \<notin> set path" by blast
  have nv: "\<not> visited ! j" using Suc.prems(5) j by blast
  from nearest_scan_finds [OF j(1) nv, of cdist "last path"]
  obtain nearest where
    f: "fst (nearest_scan cdist stops visited (last path) [0..<?n] (None, None)) = Some nearest"
    and nr: "nearest < ?n" "\<not> visited ! nearest"
    by blast
  have np: "nearest \<notin> set path" using Suc.prems(5) nr by blast
  let ?path = "path @ [nearest]"
  let ?visited = "visited[nearest := True]"
  have e: "nearest_loop cdist stops (Suc k) (path, visited)
             = nearest_loop cdist stops k (?path, ?visited)"
    by (simp only: nearest_loop.simps f option.case)
  have p1: "length ?visited = ?n" using Suc.prems(1) by simp
  have p2: "?path \<noteq> []" by simp
  have p3: "distinct ?path" using Suc.prems(3) np by simp
  have p4: "set ?path \<subseteq> {..<?n}" using Suc.prems(4) nr(1) by simp
  have p5: "\<forall>i<?n. ?visited ! i \<longleftrightarrow> i \<in> set ?path"
  proof (intro allI impI)
    fix i assume i: "i < ?n"
    hence "visited ! i \<longleftrightarrow> i \<in> set path" using Suc.prems(5) by blast
    moreover have "?visited ! i = (if i = nearest then True else visited ! i)"
      using i Suc.prems(1) by (simp add: nth_list_update)
    ultimately show "?visited ! i \<longleftrightarrow> i \<in> set ?path" by simp
  qed
  have p6: "length ?path + k \<le> ?n" using Suc.prems(6) by simp
  have h: "hd ?path = hd path" using Suc.prems(2) by simp
  have l: "length ?path + k = length path + Suc k" by simp
  from Suc.IH [OF p1 p2 p3 p4 p5 p6]
  show ?case
    unfolding e h l .
qed

lemma nearest_neighbor_tsp_perm:
  assumes "stops \<noteq> []"
  shows "\<exists>order. nearest_neighbor_tsp cdist stops = Inr order
           \<and> mset order = mset [1..<length stops]"
proof -
  let ?n = "length stops"
  let ?v = "(replicate ?n False)[0 := True]"
  let ?p = "fst (nearest_loop cdist stops (?n - 1) ([0], ?v))"
  have pos: "0 < ?n" using assms by simp
  have a1: "length ?v = ?n" by simp
  have a2: "[0::nat] \<noteq> []" by simp
  have a3: "distinct [0::nat]" by simp
  have a4: "set [0::nat] \<subseteq> {..<?n}" using pos by simp
  have a5: "\<forall>j<?n. ?v ! j \<longleftrightarrow> j \<in> set [0::nat]"
  proof (intro allI impI)
    fix j assume j: "j < ?n"
    show "?v ! j \<longleftrightarrow> j \<in> set [0::nat]"
    proof (cases "j = 0")
      case True
      thus ?thesis using pos by simp
    next
      case False
      thus ?thesis using j by simp
    qed
  qed
  have a6: "length [0::nat] + (?n - 1) \<le> ?n" using pos by simp
  have l0: "length [0::nat] + (?n - 1) = ?n" using pos by simp
  have h0: "hd [0::nat] = 0" by simp
  from nearest_loop_inv [OF a1 a2 a3 a4 a5 a6, of cdist]
  have len: "length ?p = ?n" and dis: "distinct ?p" and sub: "set ?p \<subseteq> {..<?n}"
    and hd: "hd ?p = 0"
    unfolding l0 h0 by blast+
  have "card (set ?p) = ?n"
    using dis len by (simp only: distinct_card)
  hence "card (set ?p) = card {..<?n}" by simp
  have fin: "finite {..<?n}" by simp
  have set: "set ?p = {..<?n}"
    using fin sub \<open>card (set ?p) = card {..<?n}\<close> by (rule card_subset_eq)
  have ne: "?p \<noteq> []" using len pos by (cases ?p) simp_all
  obtain x xs where p: "?p = x # xs" using ne by (cases ?p) simp_all
  have x: "x = 0" using hd unfolding p by simp
  have tl: "tl ?p = xs" unfolding p by simp
  have dt: "distinct xs" and nx: "0 \<notin> set xs" using dis unfolding p x by simp_all
  have ins: "insert 0 (set xs) = {..<?n}" using set unfolding p x by simp
  have s: "set xs = set [1..<?n]"
  proof (rule set_eqI)
    fix i
    have "i \<in> insert 0 (set xs) \<longleftrightarrow> i \<in> {..<?n}" by (simp only: ins)
    hence c: "(i = 0 \<or> i \<in> set xs) \<longleftrightarrow> i < ?n" by simp
    show "i \<in> set xs \<longleftrightarrow> i \<in> set [1..<?n]"
    proof (cases "i = 0")
      case True
      thus ?thesis using nx by simp
    next
      case False
      thus ?thesis using c by simp
    qed
  qed
  have du: "distinct [1..<?n]" by simp
  have m: "mset xs = mset [1..<?n]"
    using set_eq_iff_mset_eq_distinct [OF dt du] s by blast
  have "nearest_neighbor_tsp cdist stops = Inr (tl ?p)"
    using assms by (simp add: nearest_neighbor_tsp_def Let_def split_beta)
  hence "nearest_neighbor_tsp cdist stops = Inr xs" unfolding tl .
  with m show ?thesis by blast
qed

lemma solve_tsp_result:
  assumes "solve_tsp cdist stops = Inr order"
  shows "8 < length stops \<and> mset order = mset [1..<length stops]"
proof -
  have big: "8 < length stops"
  proof (rule ccontr)
    assume "\<not> 8 < length stops"
    hence "solve_tsp cdist stops = Inl NameError" by (simp add: solve_tsp_small)
    with assms show False by simp
  qed
  hence "stops \<noteq> []" by auto
  from nearest_neighbor_tsp_perm [OF this, of cdist]
  obtain order' where "nearest_neighbor_tsp cdist stops = Inr order'"
    and "mset order' = mset [1..<length stops]" by blast
  with assms big show ?thesis by (simp add: solve_tsp_large)
qed

lemma solve_tsp_large_returns:
  assumes "8 < length stops"
  shows "\<exists>order. solve_tsp cdist stops = Inr order"
proof -
  from assms have "stops \<noteq> []" by auto
  from nearest_neighbor_tsp_perm [OF this, of cdist] assms show ?thesis
    by (auto simp add: solve_tsp_large)
qed

lemma mset_map_nth_tl: "mset (map (\<lambda>i. xs ! i) [1..<length xs]) = mset (tl xs)"
proof -
  have "map (\<lambda>i. xs ! i) [1..<length xs] = tl xs"
    by (rule nth_equalityI) (simp_all add: nth_tl)
  thus ?thesis by simp
qed

lemma route_of_order:
  assumes "mset order = mset [1..<length xs]"
  shows "mset (map (\<lambda>i. xs ! i) order) = mset (tl xs)"
proof -
  have "mset (map (\<lambda>i. xs ! i) order) = image_mset (\<lambda>i. xs ! i) (mset order)" by simp
  also have "\<dots> = image_mset (\<lambda>i. xs ! i) (mset [1..<length xs])" using assms by simp
  also have "\<dots> = mset (map (\<lambda>i. xs ! i) [1..<length xs])" by simp
  finally show ?thesis by (simp only: mset_map_nth_tl)
qed

section \<open>Clustering\<close>

lemma slice_append: "slice_to n xs @ slice_from n xs = xs"
  by (simp add: slice_to_def slice_from_def)

lemma split_cluster_fits: "int (length c) \<le> m \<Longrightarrow> split_cluster m c f = Some (f, c)"
  by (subst split_cluster.simps) simp

lemma split_cluster_step:
  "m < int (length c) \<Longrightarrow>
     split_cluster m c f = split_cluster m (slice_from m c) (f @ [slice_to m c])"
  by (subst split_cluster.simps) simp

lemma split_cluster_total:
  assumes "0 < m"
  shows "\<exists>f' c'. split_cluster m c f = Some (f', c')
           \<and> mset (concat f') + mset c' = mset (concat f) + mset c
           \<and> int (length c') \<le> m
           \<and> (\<forall>x\<in>set f'. x \<in> set f \<or> (x \<noteq> [] \<and> int (length x) \<le> m))"
proof (induction "length c" arbitrary: c f rule: less_induct)
  case less
  show ?case
  proof (cases "int (length c) \<le> m")
    case True
    thus ?thesis by (simp add: split_cluster_fits)
  next
    case False
    hence gt: "m < int (length c)" by simp
    have st: "slice_to m c = take (nat m) c" and sf: "slice_from m c = drop (nat m) c"
      using assms by (simp_all add: slice_to_def slice_from_def)
    have shorter: "length (slice_from m c) < length c"
      using assms gt unfolding sf by simp
    have ne: "slice_to m c \<noteq> []"
      using assms gt unfolding st by auto
    have le: "int (length (slice_to m c)) \<le> m"
      using assms unfolding st by simp
    from less [OF shorter, of "f @ [slice_to m c]"]
    obtain f' c' where r: "split_cluster m (slice_from m c) (f @ [slice_to m c]) = Some (f', c')"
      and ms: "mset (concat f') + mset c'
                 = mset (concat (f @ [slice_to m c])) + mset (slice_from m c)"
      and len: "int (length c') \<le> m"
      and els: "\<forall>x\<in>set f'. x \<in> set (f @ [slice_to m c]) \<or> (x \<noteq> [] \<and> int (length x) \<le> m)"
      by blast
    have e: "split_cluster m c f = Some (f', c')"
      using split_cluster_step [OF gt, of f] r by simp
    have "mset (slice_to m c) + mset (slice_from m c) = mset c"
      using slice_append [of m c] by (metis mset_append)
    hence ms': "mset (concat f') + mset c' = mset (concat f) + mset c"
      using ms by (simp add: ac_simps)
    have els': "\<forall>x\<in>set f'. x \<in> set f \<or> (x \<noteq> [] \<and> int (length x) \<le> m)"
      using els ne le by auto
    show ?thesis
      using e ms' len els' by blast
  qed
qed

lemma split_clusters_total:
  assumes "0 < m"
  shows "\<exists>f'. split_clusters m cs f = Some f'
           \<and> mset (concat f') = mset (concat f) + mset (concat cs)
           \<and> (\<forall>x\<in>set f'. x \<in> set f \<or> (x \<noteq> [] \<and> int (length x) \<le> m))"
proof (induction cs arbitrary: f)
  case Nil
  show ?case by simp
next
  case (Cons c cs)
  from split_cluster_total [OF assms, of c f]
  obtain f1 c1 where r: "split_cluster m c f = Some (f1, c1)"
    and ms: "mset (concat f1) + mset c1 = mset (concat f) + mset c"
    and len: "int (length c1) \<le> m"
    and els: "\<forall>x\<in>set f1. x \<in> set f \<or> (x \<noteq> [] \<and> int (length x) \<le> m)"
    by blast
  let ?f2 = "if c1 \<noteq> [] then f1 @ [c1] else f1"
  from Cons.IH [of ?f2]
  obtain f' where r2: "split_clusters m cs ?f2 = Some f'"
    and ms2: "mset (concat f') = mset (concat ?f2) + mset (concat cs)"
    and els2: "\<forall>x\<in>set f'. x \<in> set ?f2 \<or> (x \<noteq> [] \<and> int (length x) \<le> m)"
    by blast
  have e: "split_clusters m (c # cs) f = Some f'"
    using r r2 by simp
  have "mset (concat ?f2) = mset (concat f1) + mset c1"
    by simp
  hence ms': "mset (concat f') = mset (concat f) + mset (concat (c # cs))"
    using ms ms2 by (simp add: ac_simps)
  have els': "\<forall>x\<in>set f'. x \<in> set f \<or> (x \<noteq> [] \<and> int (length x) \<le> m)"
  proof
    fix x assume "x \<in> set f'"
    with els2 have "x \<in> set ?f2 \<or> (x \<noteq> [] \<and> int (length x) \<le> m)" by blast
    thus "x \<in> set f \<or> (x \<noteq> [] \<and> int (length x) \<le> m)"
      using els len by (cases "c1 = []") auto
  qed
  show ?case
    using e ms' els' by blast
qed

lemma mset_concat_update:
  "k < length cl \<Longrightarrow> mset (concat (cl[k := cl ! k @ [s]])) = mset (concat cl) + {#s#}"
proof (induction cl arbitrary: k)
  case Nil
  thus ?case by simp
next
  case (Cons c cl)
  show ?case
  proof (cases k)
    case 0
    thus ?thesis by simp
  next
    case (Suc j)
    with Cons.prems have "j < length cl" by simp
    from Cons.IH [OF this] show ?thesis
      using Suc by simp
  qed
qed

lemma round_robin_total:
  assumes "0 < n"
  shows "length cl = n \<Longrightarrow>
         \<exists>cl'. round_robin n es cl = Inr cl' \<and> length cl' = n
           \<and> mset (concat cl') = mset (concat cl) + mset (map snd es)"
proof (induction es arbitrary: cl)
  case Nil
  thus ?case by simp
next
  case (Cons e es)
  obtain i s where e: "e = (i, s)" by (cases e)
  let ?cl = "cl[i mod n := cl ! (i mod n) @ [s]]"
  have k: "i mod n < length cl"
    using assms Cons.prems by simp
  have l: "length ?cl = n"
    using Cons.prems by simp
  from Cons.IH [OF l]
  obtain cl' where r: "round_robin n es ?cl = Inr cl'" and l': "length cl' = n"
    and ms: "mset (concat cl') = mset (concat ?cl) + mset (map snd es)"
    by blast
  have "round_robin n (e # es) cl = Inr cl'"
    using assms r unfolding e by simp
  moreover have "mset (concat cl') = mset (concat cl) + mset (map snd (e # es))"
    using ms mset_concat_update [OF k, of s] unfolding e by simp
  ultimately show ?case
    using l' by blast
qed

lemma map_snd_enumerate_stops: "map snd (enumerate k xs) = xs"
  by (induction xs arbitrary: k) simp_all

lemma cluster_stops_total:
  assumes "0 < n" and "0 < m"
  shows "\<exists>cl. cluster_stops stops n m = Some (Inr cl)
           \<and> mset (concat cl) = mset stops
           \<and> (\<forall>c\<in>set cl. c \<noteq> [] \<and> int (length c) \<le> m)"
proof -
  have "length (replicate n ([] :: 'a list)) = n" by simp
  from round_robin_total [OF assms(1) this, of "enumerate 0 stops"]
  obtain cl1 where r1: "round_robin n (enumerate 0 stops) (replicate n []) = Inr cl1"
    and ms1: "mset (concat cl1) = mset (concat (replicate n ([] :: 'a list)))
                + mset (map snd (enumerate 0 stops))"
    by blast
  have ms1': "mset (concat cl1) = mset stops"
    using ms1 by (simp add: map_snd_enumerate_stops)
  from split_clusters_total [OF assms(2), of cl1 "[]"]
  obtain cl where r2: "split_clusters m cl1 [] = Some cl"
    and ms2: "mset (concat cl) = mset (concat ([] :: 'a list list)) + mset (concat cl1)"
    and els: "\<forall>x\<in>set cl. x \<in> set ([] :: 'a list list) \<or> (x \<noteq> [] \<and> int (length x) \<le> m)"
    by blast
  have "cluster_stops stops n m = Some (Inr cl)"
    using r1 r2 by (simp add: cluster_stops_def)
  moreover have "mset (concat cl) = mset stops"
    using ms2 ms1' by simp
  moreover have "\<forall>c\<in>set cl. c \<noteq> [] \<and> int (length c) \<le> m"
    using els by simp
  ultimately show ?thesis by blast
qed

section \<open>Routes of a returned solution\<close>

lemma cluster_stops_no_vehicles:
  "cluster_stops stops 0 m = (if stops = [] then Some (Inr []) else Some (Inl ZeroDivisionError))"
  by (cases stops) (simp_all add: cluster_stops_def)

lemma cluster_stops_returned:
  assumes "0 < m" and "cluster_stops stops n m = Some (Inr cl)"
  shows "mset (concat cl) = mset stops \<and> (\<forall>c\<in>set cl. c \<noteq> [] \<and> int (length c) \<le> m)"
proof (cases "n = 0")
  case True
  with assms(2) have "stops = [] \<and> cl = []"
    by (cases "stops = []") (simp_all add: cluster_stops_no_vehicles)
  thus ?thesis by simp
next
  case False
  hence "0 < n" by simp
  from cluster_stops_total [OF this assms(1), of stops] assms(2)
  show ?thesis by auto
qed

lemma cluster_stops_terminates:
  assumes "0 < m"
  shows "\<exists>res. cluster_stops stops n m = Some res"
proof (cases "n = 0")
  case True
  thus ?thesis by (simp add: cluster_stops_no_vehicles)
next
  case False
  hence "0 < n" by simp
  from cluster_stops_total [OF this assms, of stops] show ?thesis by blast
qed

lemma optimize_routes_terminates:
  assumes "0 < m"
  shows "\<exists>res. optimize_routes cdist sp vehicles stops depot tod m = Some res"
proof -
  obtain res where r: "cluster_stops stops (length vehicles) m = Some res"
    using cluster_stops_terminates [OF assms] by blast
  show ?thesis
  proof (cases res)
    case (Inl e)
    with r show ?thesis by (simp add: optimize_routes_def)
  next
    case (Inr clusters)
    with r show ?thesis
      by (cases "routes_loop cdist sp depot tod (zip vehicles clusters) []")
         (simp_all add: optimize_routes_def Let_def)
  qed
qed

lemma routes_loop_result:
  "routes_loop cdist sp depot tod vcs acc = Inr rs \<Longrightarrow>
     map (\<lambda>r. (r_vehicle_id r, mset (r_stops r))) rs =
       map (\<lambda>r. (r_vehicle_id r, mset (r_stops r))) acc
       @ map (\<lambda>(v, c). (v_id v, mset c + {#depot#})) (filter (\<lambda>(v, c). c \<noteq> []) vcs)"
proof (induction vcs arbitrary: acc)
  case Nil
  thus ?case by simp
next
  case (Cons vc vcs)
  obtain v c where vc: "vc = (v, c)" by (cases vc)
  show ?case
  proof (cases "c = []")
    case True
    with Cons.prems have "routes_loop cdist sp depot tod vcs acc = Inr rs"
      unfolding vc by simp
    from Cons.IH [OF this] show ?thesis
      unfolding vc using True by simp
  next
    case False
    let ?rs = "[depot] @ c @ [depot]"
    obtain order where o: "solve_tsp cdist ?rs = Inr order"
      using Cons.prems False unfolding vc
      by (cases "solve_tsp cdist ?rs") (simp_all add: Let_def)
    let ?route = "map (\<lambda>i. ?rs ! i) order"
    let ?info = "calculate_route_metrics cdist sp v ?route tod"
    let ?R = "\<lparr>r_vehicle_id = v_id v, r_vehicle_type = v_type v, r_stops = ?route,
               r_distance_km = ri_distance_km ?info, r_time_minutes = ri_time_minutes ?info,
               r_fuel_liters = ri_fuel_liters ?info, r_emissions_kg = ri_emissions_kg ?info\<rparr>"
    have step: "routes_loop cdist sp depot tod ((v, c) # vcs) acc
                  = routes_loop cdist sp depot tod vcs (acc @ [?R])"
      using False o by (simp add: Let_def)
    hence "routes_loop cdist sp depot tod vcs (acc @ [?R]) = Inr rs"
      using Cons.prems unfolding vc by simp
    from Cons.IH [OF this]
    have ih: "map (\<lambda>r. (r_vehicle_id r, mset (r_stops r))) rs =
       map (\<lambda>r. (r_vehicle_id r, mset (r_stops r))) (acc @ [?R])
       @ map (\<lambda>(v, c). (v_id v, mset c + {#depot#})) (filter (\<lambda>(v, c). c \<noteq> []) vcs)" .
    from solve_tsp_result [OF o]
    have "mset order = mset [1..<length ?rs]" by (rule conjunct2)
    hence "mset ?route = mset (tl ?rs)" by (rule route_of_order)
    hence m: "mset (r_stops ?R) = mset c + {#depot#}" by simp
    have id: "r_vehicle_id ?R = v_id v" by simp
    have "map (\<lambda>r. (r_vehicle_id r, mset (r_stops r))) (acc @ [?R])
            = map (\<lambda>r. (r_vehicle_id r, mset (r_stops r))) acc @ [(v_id v, mset c + {#depot#})]"
      by (simp only: map_append list.map m id)
    with ih show ?thesis
      unfolding vc using False by simp
  qed
qed

lemma optimize_routes_returned:
  assumes "optimize_routes cdist sp vehicles stops depot tod m = Some (Inr sol)"
    and "0 < m"
  shows "\<exists>clusters. cluster_stops stops (length vehicles) m = Some (Inr clusters)
           \<and> mset (concat clusters) = mset stops
           \<and> (\<forall>c\<in>set clusters. c \<noteq> [] \<and> int (length c) \<le> m)
           \<and> map (\<lambda>r. (r_vehicle_id r, mset (r_stops r))) (routes sol) =
               map (\<lambda>(v, c). (v_id v, mset c + {#depot#})) (zip vehicles clusters)"
proof -
  obtain res where r: "cluster_stops stops (length vehicles) m = Some res"
    using cluster_stops_terminates [OF assms(2)] by blast
  obtain clusters where c: "res = Inr clusters"
    using assms(1) r by (cases res) (simp_all add: optimize_routes_def)
  have cs: "cluster_stops stops (length vehicles) m = Some (Inr clusters)"
    using r c by simp
  obtain rs where rl: "routes_loop cdist sp depot tod (zip vehicles clusters) [] = Inr rs"
    using assms(1) cs
    by (cases "routes_loop cdist sp depot tod (zip vehicles clusters) []")
       (simp_all add: optimize_routes_def Let_def)
  have rsol: "routes sol = rs"
    using assms(1) cs rl by (auto simp add: optimize_routes_def Let_def)
  from cluster_stops_returned [OF assms(2) cs]
  have part: "mset (concat clusters) = mset stops"
    and ne: "\<forall>c\<in>set clusters. c \<noteq> [] \<and> int (length c) \<le> m"
    by blast+
  have "\<forall>vc\<in>set (zip vehicles clusters). (\<lambda>(v, c). c \<noteq> []) vc"
  proof
    fix vc assume a: "vc \<in> set (zip vehicles clusters)"
    obtain v c where vc: "vc = (v, c)" by (cases vc)
    from a have "c \<in> set clusters" unfolding vc by (rule set_zip_rightD)
    with ne show "(\<lambda>(v, c). c \<noteq> []) vc" unfolding vc by simp
  qed
  hence f: "filter (\<lambda>(v, c). c \<noteq> []) (zip vehicles clusters) = zip vehicles clusters"
    by (simp only: filter_True)
  from routes_loop_result [OF rl]
  have "map (\<lambda>r. (r_vehicle_id r, mset (r_stops r))) rs =
          map (\<lambda>(v, c). (v_id v, mset c + {#depot#})) (zip vehicles clusters)"
    unfolding f by simp
  with cs part ne rsol show ?thesis by blast
qed

lemma route_of_solution:
  assumes "optimize_routes cdist sp vehicles stops depot tod m = Some (Inr sol)"
    and "0 < m"
    and "r \<in> set (routes sol)"
  shows "\<exists>c. c \<noteq> [] \<and> set c \<subseteq> set stops \<and> mset (r_stops r) = mset c + {#depot#}"
proof -
  from optimize_routes_returned [OF assms(1,2)]
  obtain clusters where part: "mset (concat clusters) = mset stops"
    and ne: "\<forall>c\<in>set clusters. c \<noteq> [] \<and> int (length c) \<le> m"
    and mp: "map (\<lambda>r. (r_vehicle_id r, mset (r_stops r))) (routes sol) =
               map (\<lambda>(v, c). (v_id v, mset c + {#depot#})) (zip vehicles clusters)"
    by blast
  have "(r_vehicle_id r, mset (r_stops r))
          \<in> set (map (\<lambda>r. (r_vehicle_id r, mset (r_stops r))) (routes sol))"
    using assms(3) by simp
  hence "(r_vehicle_id r, mset (r_stops r))
          \<in> set (map (\<lambda>(v, c). (v_id v, mset c + {#depot#})) (zip vehicles clusters))"
    unfolding mp .
  then obtain vc where vcin: "vc \<in> set (zip vehicles clusters)"
    and eq: "(r_vehicle_id r, mset (r_stops r)) = (\<lambda>(v, c). (v_id v, mset c + {#depot#})) vc"
    unfolding set_map by blast
  obtain v c where vc: "vc = (v, c)" by (cases vc)
  have cin: "c \<in> set clusters" using vcin unfolding vc by (rule set_zip_rightD)
  have m: "mset (r_stops r) = mset c + {#depot#}" using eq unfolding vc by simp
  have "set c \<subseteq> set (concat clusters)" using cin by auto
  also have "set (concat clusters) = set stops" using part by (rule mset_eq_setD)
  finally have sub: "set c \<subseteq> set stops" .
  from ne cin have "c \<noteq> []" by blast
  with sub m show ?thesis by blast
qed

lemma ends_not_both:
  assumes "mset xs = mset c + {#d#}" and "d \<notin> set c" and "c \<noteq> []"
  shows "\<not> (hd xs = d \<and> last xs = d)"
proof
  assume a: "hd xs = d \<and> last xs = d"
  have len: "length xs = length c + 1"
    using assms(1) by (metis size_mset size_union size_single)
  then obtain y ys where xs: "xs = y # ys" by (cases xs) simp_all
  have ysne: "ys \<noteq> []" using len assms(3) unfolding xs by auto
  have y: "y = d" using a unfolding xs by simp
  have "last ys = d" using a ysne unfolding xs by simp
  hence "d \<in> set ys" using ysne by (metis last_in_set)
  moreover have "mset ys = mset c" using assms(1) unfolding xs y by simp
  ultimately have "d \<in> set c" by (metis mset_eq_setD)
  with assms(2) show False by simp
qed

lemma length_route_legs: "length (route_legs route) = length route - 1"
  by (simp add: route_legs_def)

section \<open>The example request\<close>

lemmas example_defs = stops7_def depot1_def truck1_def

lemma nearest_neighbor_example:
  "nearest_neighbor_tsp flat_dist (depot1 # stops7 @ [depot1]) = Inr [8, 1, 2, 3, 4, 5, 6, 7]"
  by (simp add: nearest_neighbor_tsp_def Let_def eval_nat_numeral upt_rec flat_dist_def
      lt_inf_def depot1_def stops7_def)

lemma solve_tsp_example:
  "solve_tsp flat_dist (depot1 # stops7 @ [depot1]) = Inr [8, 1, 2, 3, 4, 5, 6, 7]"
  using nearest_neighbor_example by (simp add: solve_tsp_def stops7_def)

lemma route_legs_example:
  "route_legs (depot1 # stops7) =
     [((12.90, 77.60), (12.91, 77.60)), ((12.91, 77.60), (12.92, 77.60)),
      ((12.92, 77.60), (12.93, 77.60)), ((12.93, 77.60), (12.94, 77.60)),
      ((12.94, 77.60), (12.95, 77.60)), ((12.95, 77.60), (12.96, 77.60)),
      ((12.96, 77.60), (12.97, 77.60))]"
  by (simp add: route_legs_def stops7_def depot1_def upt_rec)

lemma route_metrics_example:
  "calculate_route_metrics flat_dist direct_path truck1 (depot1 # stops7) ''day'' =
     \<lparr>ri_distance_km = 7.77, ri_time_minutes = 9.324, ri_fuel_liters = 2.331,
      ri_emissions_kg = 5.38461\<rparr>"
  by (simp add: calculate_route_metrics_def route_legs_example direct_path_def flat_dist_def
      calculate_fuel_consumption_def Let_def dict_get_def base_consumption_def
      factors_road_condition_def factors_load_def factors_speed_optimal_def
      factors_speed_penalty_def factors_elevation_def lower_def lower_char_def truck1_def)

lemma routes_loop_example:
  "routes_loop flat_dist direct_path depot1 ''day'' [(truck1, stops7)] [] = Inr [route7]"
  unfolding example_defs route7_def
  using solve_tsp_example [unfolded example_defs] route_metrics_example [unfolded example_defs]
  by (simp add: Let_def)

lemma cluster_stops_example7: "cluster_stops stops7 1 7 = Some (Inr [stops7])"
  by (simp add: cluster_stops_def stops7_def split_cluster_fits)


lemma optimize_routes_example7:
  "optimize_routes flat_dist direct_path [truck1] stops7 depot1 ''day'' 7 = Some (Inr solution7)"
  using cluster_stops_example7 routes_loop_example
  by (simp add: optimize_routes_def Let_def solution7_def route7_def)


section \<open>Brute-force sequencing\<close>

text \<open>
  Claim C2 states that for at most 8 stops the sequencer runs the exact brute force over
  all permutations and returns an ordering of minimal total distance, the first minimal
  permutation winning. In the code \<open>_brute_force_tsp\<close> reads the name \<open>num_steps\<close>, which
  nothing binds, before it does anything else: it raises NameError for every distance and
  every list of stops, and so do \<open>_solve_tsp\<close> on the depot, two stops and the depot, and
  \<open>optimize_routes\<close> on the request with these two stops.
\<close>

theorem C2_brute_force_raises:
  "brute_force_tsp cdist stops = Inl NameError
   \<and> solve_tsp cdist
         [(12.9698, 77.75), (12.9716, 77.5946), (12.9352, 77.6245), (12.9698, 77.75)]
       = Inl NameError
   \<and> optimize_routes cdist sp [truck1] [(12.9716, 77.5946), (12.9352, 77.6245)]
         (12.9698, 77.75) ''day'' 5
       = Some (Inl NameError)"
proof -
  have f1: "brute_force_tsp cdist stops = Inl NameError"
    by (rule brute_force_tsp_raises)
  have f2: "solve_tsp cdist
         [(12.9698, 77.75), (12.9716, 77.5946), (12.9352, 77.6245), (12.9698, 77.75)]
       = Inl NameError"
    by (simp add: solve_tsp_small)
  have c: "cluster_stops [(12.9716, 77.5946), (12.9352, 77.6245) :: point] 1 5
             = Some (Inr [[(12.9716, 77.5946), (12.9352, 77.6245)]])"
    by (simp add: cluster_stops_def split_cluster_fits)
  have f3: "optimize_routes cdist sp [truck1] [(12.9716, 77.5946), (12.9352, 77.6245)]
         (12.9698, 77.75) ''day'' 5
       = Some (Inl NameError)"
    using c by (simp add: optimize_routes_def solve_tsp_small Let_def)
  show ?thesis
    using f1 f2 f3 by (intro conjI)
qed

section \<open>Routes and their legs\<close>

text \<open>
  Claim C4 states that every route begins and ends at the depot and is scored over as many
  legs as it has assigned stops, plus one. In the code the sequencer is asked to order the
  depot, the assigned stops and the depot again, and what it returns leaves out the first
  of these: every route of a returned solution consists of its assigned stops and the
  depot once, so it is scored over exactly as many legs as it has assigned stops, and,
  unless the depot is itself a stop, it does not both begin and end at the depot.
\<close>

theorem C4_route_legs:
  assumes "optimize_routes cdist sp vehicles stops depot tod m = Some (Inr sol)"
    and "0 < m"
    and "r \<in> set (routes sol)"
    and "depot \<notin> set stops"
  shows "\<exists>c. c \<noteq> [] \<and> set c \<subseteq> set stops
           \<and> mset (r_stops r) = mset c + {#depot#}
           \<and> length (route_legs (r_stops r)) = length c
           \<and> \<not> (hd (r_stops r) = depot \<and> last (r_stops r) = depot)"
proof -
  from route_of_solution [OF assms(1,2,3)]
  obtain c where ne: "c \<noteq> []" and sub: "set c \<subseteq> set stops"
    and m: "mset (r_stops r) = mset c + {#depot#}"
    by blast
  have "length (r_stops r) = length c + 1"
    using m by (metis size_mset size_union size_single)
  hence legs: "length (route_legs (r_stops r)) = length c"
    by (simp add: length_route_legs)
  have "depot \<notin> set c" using sub assms(4) by blast
  from ends_not_both [OF m this ne]
  have ends: "\<not> (hd (r_stops r) = depot \<and> last (r_stops r) = depot)" .
  show ?thesis
    using ne sub m legs ends by blast
qed

theorem C4_route_legs_witness:
  "optimize_routes flat_dist direct_path [truck1] stops7 depot1 ''day'' 7 = Some (Inr solution7)
   \<and> route7 \<in> set (routes solution7)
   \<and> depot1 \<notin> set stops7
   \<and> (\<exists>c. c \<noteq> [] \<and> set c \<subseteq> set stops7
           \<and> mset (r_stops route7) = mset c + {#depot1#}
           \<and> length (route_legs (r_stops route7)) = length c
           \<and> \<not> (hd (r_stops route7) = depot1 \<and> last (r_stops route7) = depot1))
   \<and> r_stops route7 = depot1 # stops7
   \<and> length (route_legs (r_stops route7)) = 7
   \<and> last (r_stops route7) = (12.97, 77.60)"
proof -
  have h1: "optimize_routes flat_dist direct_path [truck1] stops7 depot1 ''day'' 7
              = Some (Inr solution7)"
    by (rule optimize_routes_example7)
  have h2: "(0::int) < 7" by simp
  have h3: "route7 \<in> set (routes solution7)" by (simp add: solution7_def)
  have h4: "depot1 \<notin> set stops7" by (simp add: depot1_def stops7_def)
  note w = C4_route_legs [OF h1 h2 h3 h4]
  have e1: "r_stops route7 = depot1 # stops7"
    by (simp add: route7_def depot1_def stops7_def)
  have e2: "length (route_legs (r_stops route7)) = 7"
    by (simp add: length_route_legs route7_def)
  have e3: "last (r_stops route7) = (12.97, 77.60)"
    by (simp add: route7_def)
  show ?thesis
    using h1 h3 h4 w e1 e2 e3 by (intro conjI)
qed

section \<open>Assignment of stops to routes\<close>




end
